theory Spec2Isabelle
  imports Main "HOL-Library.AList"
begin

section \<open>JavaScript values, heap objects and exceptions\<close>

text \<open>
  The utilities of \<^verbatim>\<open>src/index.ts\<close> that are verified here (\<^verbatim>\<open>pipe\<close>,
  \<^verbatim>\<open>pipeSafely\<close>, \<^verbatim>\<open>notEmpty\<close>, \<^verbatim>\<open>getSafely\<close>, \<^verbatim>\<open>getOrThrow\<close>,
  \<^verbatim>\<open>getOrElse\<close>) work on arbitrary JavaScript values. Arrays and objects are reference
  values: a variable holds an address, and two variables may hold the same one. The
  properties of \<^verbatim>\<open>pipe\<close> are about exactly that aliasing, so objects live in an
  explicit heap and a value is either a primitive or a reference into the heap.
\<close>

type_synonym addr = nat

datatype jsval =
    VUndefined
  | VNull
  | VBool bool
  | VNum int
  | VStr string
  | VFun string
  | VRef addr

text \<open>
  \<open>VNum\<close> carries an integer: none of the functions below does arithmetic, and on
  the values kept here \<^verbatim>\<open>===\<close> is HOL equality. \<open>VFun n\<close> is a function value,
  identified by a name; the global constructor \<^verbatim>\<open>Object\<close> is one of them.
\<close>

definition Object :: jsval where
  "Object = VFun ''Object''"

text \<open>
  A heap object is an array with its elements, or a non-array object with its own
  enumerable properties in insertion order. The first argument of \<open>Obj\<close> is what the
  prototype chain of the object yields for the property \<^verbatim>\<open>constructor\<close>: \<open>Object\<close>
  for an object literal, the class for a class instance, \<open>VUndefined\<close> for an object
  with a null prototype.
\<close>

datatype obj =
    Arr "jsval list"
  | Obj jsval "(string \<times> jsval) list"

text \<open>
  The heap is the list of the objects allocated so far, the address of an object being its
  position. Allocation appends, so a new address differs from every address in use.
\<close>

type_synonym heap = "obj list"

definition lookup :: "heap \<Rightarrow> addr \<Rightarrow> obj option" where
  "lookup h a = (if a < length h then Some (h ! a) else None)"

definition alloc :: "obj \<Rightarrow> heap \<Rightarrow> jsval \<times> heap" where
  "alloc ob h = (VRef (length h), h @ [ob])"

text \<open>
  What a call can throw: the engine's \<^verbatim>\<open>TypeError\<close>, an \<^verbatim>\<open>Error\<close> with its
  message, or any value thrown by a function of the caller.
\<close>

datatype exn = TypeError | Error string | Thrown jsval

text \<open>
  A call returns a value or throws, and leaves a heap behind in both cases. Steps of a
  pipe and accessors are functions of the caller: any function of this type.
\<close>

type_synonym outcome = "(exn + jsval) \<times> heap"
type_synonym step = "jsval \<Rightarrow> heap \<Rightarrow> outcome"
type_synonym accessor = "heap \<Rightarrow> outcome"

section \<open>The operators used by the guard of pipe\<close>

text \<open>\<^verbatim>\<open>Array.isArray(value)\<close>\<close>

definition isArray :: "heap \<Rightarrow> jsval \<Rightarrow> bool" where
  "isArray h v =
     (case v of
        VRef a \<Rightarrow> (case lookup h a of Some (Arr xs) \<Rightarrow> True | _ \<Rightarrow> False)
      | _ \<Rightarrow> False)"

text \<open>\<^verbatim>\<open>typeof value\<close>; \<^verbatim>\<open>typeof null\<close> is \<^verbatim>\<open>'object'\<close>.\<close>

definition typeof :: "jsval \<Rightarrow> string" where
  "typeof v =
     (case v of
        VUndefined \<Rightarrow> ''undefined''
      | VNull \<Rightarrow> ''object''
      | VBool b \<Rightarrow> ''boolean''
      | VNum n \<Rightarrow> ''number''
      | VStr s \<Rightarrow> ''string''
      | VFun f \<Rightarrow> ''function''
      | VRef a \<Rightarrow> ''object'')"

text \<open>
  \<^verbatim>\<open>value.constructor\<close>: reading a property of \<^verbatim>\<open>null\<close> or \<^verbatim>\<open>undefined\<close> throws
  a TypeError; a primitive answers with the constructor of its wrapper; an object answers
  with its own property of that name when it has one, and with the inherited one
  otherwise. An address outside the heap does not occur in a JavaScript state; no property
  is read from it.
\<close>

definition getConstructor :: "heap \<Rightarrow> jsval \<Rightarrow> exn + jsval" where
  "getConstructor h v =
     (case v of
        VUndefined \<Rightarrow> Inl TypeError
      | VNull \<Rightarrow> Inl TypeError
      | VBool b \<Rightarrow> Inr (VFun ''Boolean'')
      | VNum n \<Rightarrow> Inr (VFun ''Number'')
      | VStr s \<Rightarrow> Inr (VFun ''String'')
      | VFun f \<Rightarrow> Inr (VFun ''Function'')
      | VRef a \<Rightarrow>
          (case lookup h a of
             None \<Rightarrow> Inr VUndefined
           | Some (Arr xs) \<Rightarrow> Inr (VFun ''Array'')
           | Some (Obj inherited props) \<Rightarrow>
               Inr (case map_of props ''constructor'' of
                      Some c \<Rightarrow> c
                    | None \<Rightarrow> inherited)))"

text \<open>
  \<^verbatim>\<open>value.slice(0)\<close>: a new array with the same elements. \<^verbatim>\<open>pipe\<close> evaluates it
  on arrays only.
\<close>

definition slice0 :: "heap \<Rightarrow> jsval \<Rightarrow> jsval \<times> heap" where
  "slice0 h v =
     (case v of
        VRef a \<Rightarrow> (case lookup h a of Some (Arr xs) \<Rightarrow> alloc (Arr xs) h | _ \<Rightarrow> (v, h))
      | _ \<Rightarrow> (v, h))"

text \<open>
  \<^verbatim>\<open>{ ...value }\<close>: a new object literal (so one that inherits \<^verbatim>\<open>Object\<close> as its
  constructor) with the own enumerable properties of \<open>value\<close>. \<^verbatim>\<open>pipe\<close> evaluates
  it on non-array heap objects only; any other operand is given no own properties here.
\<close>

definition spread :: "heap \<Rightarrow> jsval \<Rightarrow> jsval \<times> heap" where
  "spread h v =
     (case v of
        VRef a \<Rightarrow>
          (case lookup h a of
             Some (Obj inherited props) \<Rightarrow> alloc (Obj Object props) h
           | _ \<Rightarrow> alloc (Obj Object []) h)
      | _ \<Rightarrow> alloc (Obj Object []) h)"

section \<open>pipe\<close>

text \<open>
  \<^verbatim>\<open>mapFuncs.reduce((value, mapFunc) => mapFunc(value), newValue)\<close>: a left fold
  that hands each function the result of the one before; a function that throws ends the
  fold with its exception.
\<close>

fun reduce :: "step list \<Rightarrow> jsval \<Rightarrow> heap \<Rightarrow> outcome" where
  "reduce [] acc h = (Inr acc, h)"
| "reduce (mapFunc # mapFuncs) acc h =
     (case mapFunc acc h of
        (Inl e, h') \<Rightarrow> (Inl e, h')
      | (Inr acc', h') \<Rightarrow> reduce mapFuncs acc' h')"

text \<open>
  \<^verbatim>\<open>
  export function pipe<T, U>(value: T, ...mapFuncs: ((value: any) => any)[]): U {
    let newValue;
    if (Array.isArray(value)) {
      newValue = value.slice(0);
    } else if (typeof value === 'object' && value.constructor === Object) {
      newValue = { ...value };
    } else {
      newValue = value;
    }
    return mapFuncs.reduce((value, mapFunc) => mapFunc(value), newValue);
  }
  \<close>
  \<^verbatim>\<open>&&\<close> evaluates \<^verbatim>\<open>value.constructor\<close> only when the \<^verbatim>\<open>typeof\<close> test holds, and
  an exception of that read leaves \<^verbatim>\<open>pipe\<close> before any function is called.
\<close>

definition pipe :: "jsval \<Rightarrow> step list \<Rightarrow> heap \<Rightarrow> outcome" where
  "pipe value mapFuncs h =
     (if isArray h value then
        (case slice0 h value of (newValue, h1) \<Rightarrow> reduce mapFuncs newValue h1)
      else if typeof value = ''object'' then
        (case getConstructor h value of
           Inl e \<Rightarrow> (Inl e, h)
         | Inr c \<Rightarrow>
             if c = Object then
               (case spread h value of (newValue, h1) \<Rightarrow> reduce mapFuncs newValue h1)
             else reduce mapFuncs value h)
      else reduce mapFuncs value h)"

section \<open>notEmpty and pipeSafely\<close>

text \<open>\<^verbatim>\<open>return value !== null && value !== undefined;\<close>\<close>

definition notEmpty :: "jsval \<Rightarrow> bool" where
  "notEmpty value = (value \<noteq> VNull \<and> value \<noteq> VUndefined)"

text \<open>
  \<^verbatim>\<open>
  if (notEmpty(value)) {
    return pipe(value, ...mapFuncs);
  }
  \<close>
  A function that ends without \<^verbatim>\<open>return\<close> returns \<^verbatim>\<open>undefined\<close>.
\<close>

definition pipeSafely :: "jsval \<Rightarrow> step list \<Rightarrow> heap \<Rightarrow> outcome" where
  "pipeSafely value mapFuncs h =
     (if notEmpty value then pipe value mapFuncs h else (Inr VUndefined, h))"

section \<open>The safe accessors\<close>

text \<open>
  \<^verbatim>\<open>
  let result;
  try {
    result = getCb();
  } finally {
    return result;
  }
  \<close>
  \<open>result\<close> starts as \<^verbatim>\<open>undefined\<close>. When \<^verbatim>\<open>getCb\<close> throws, the assignment does
  not happen, and the \<^verbatim>\<open>return\<close> of the \<^verbatim>\<open>finally\<close> block replaces the exception.
\<close>

definition getSafely :: "accessor \<Rightarrow> heap \<Rightarrow> outcome" where
  "getSafely getCb h =
     (case getCb h of
        (Inr result, h') \<Rightarrow> (Inr result, h')
      | (Inl e, h') \<Rightarrow> (Inr VUndefined, h'))"

text \<open>
  \<^verbatim>\<open>
  const result = getSafely(getCb);
  if (result === undefined) {
    throw new Error('getOrThrow - undefined value!');
  }
  return result;
  \<close>
\<close>

definition getOrThrow :: "accessor \<Rightarrow> heap \<Rightarrow> outcome" where
  "getOrThrow getCb h =
     (case getSafely getCb h of
        (Inl e, h') \<Rightarrow> (Inl e, h')
      | (Inr result, h') \<Rightarrow>
          if result = VUndefined then (Inl (Error ''getOrThrow - undefined value!''), h')
          else (Inr result, h'))"

text \<open>
  \<^verbatim>\<open>
  let result = getSafely(getCb);
  if (result === undefined) {
    result = defaultValue;
  }
  return result;
  \<close>
\<close>

definition getOrElse :: "accessor \<Rightarrow> jsval \<Rightarrow> heap \<Rightarrow> outcome" where
  "getOrElse getCb defaultValue h =
     (case getSafely getCb h of
        (Inl e, h') \<Rightarrow> (Inl e, h')
      | (Inr result, h') \<Rightarrow>
          if result = VUndefined then (Inr defaultValue, h') else (Inr result, h'))"

section \<open>Vocabulary of the properties\<close>


text \<open>
  The shallow copy of a heap object: the same elements, or the same own properties under
  the constructor of an object literal.
\<close>

definition shallowCopy :: "obj \<Rightarrow> obj" where
  "shallowCopy ob =
     (case ob of Arr xs \<Rightarrow> Arr xs | Obj inherited props \<Rightarrow> Obj Object props)"

text \<open>
  The values stored in an object, the references from one object to another, and the
  objects that can be reached from a value by following stored references.
\<close>

definition contents :: "obj \<Rightarrow> jsval list" where
  "contents ob = (case ob of Arr xs \<Rightarrow> xs | Obj inherited props \<Rightarrow> map snd props)"

definition edges :: "heap \<Rightarrow> (addr \<times> addr) set" where
  "edges h = {(b, c). b < length h \<and> VRef c \<in> set (contents (h ! b))}"

definition reaches :: "heap \<Rightarrow> jsval \<Rightarrow> addr \<Rightarrow> bool" where
  "reaches h v a = (case v of VRef b \<Rightarrow> (b, a) \<in> (edges h)\<^sup>* | _ \<Rightarrow> False)"

text \<open>
  A step is confined with respect to the object at \<open>a\<close> when its argument and the
  objects its closure holds (the addresses \<open>R\<close>) are its only ways to other objects.
  Called in a heap where \<open>a\<close> can be reached neither from the argument nor from an object
  of \<open>R\<close>, such a step leaves the object at \<open>a\<close> as it is, and \<open>a\<close> can still not
  be reached from \<open>R\<close>, nor from what the step returns. A step that changes the array or
  object it receives, one that builds a new value, one that reads a property of its
  argument, one that returns or stores an object it holds: all are confined. A closure
  that holds the caller's original and writes to it or returns it is not.
\<close>

definition confined :: "addr \<Rightarrow> addr set \<Rightarrow> step \<Rightarrow> bool" where
  "confined a R f =
     (\<forall>v h. lookup h a \<noteq> None \<and> \<not> reaches h v a \<and> (\<forall>r \<in> R. \<not> reaches h (VRef r) a) \<longrightarrow>
        lookup (snd (f v h)) a = lookup h a \<and>
        (\<forall>r \<in> R. \<not> reaches (snd (f v h)) (VRef r) a) \<and>
        (\<forall>v'. fst (f v h) = Inr v' \<longrightarrow> \<not> reaches (snd (f v h)) v' a))"

section \<open>Sample steps and accessors\<close>


text \<open>\<^verbatim>\<open>arr => { arr.push(x); return arr; }\<close>\<close>

definition pushStep :: "jsval \<Rightarrow> step" where
  "pushStep x v h =
     (case v of
        VRef a \<Rightarrow>
          (case lookup h a of
             Some (Arr xs) \<Rightarrow> (Inr v, h[a := Arr (xs @ [x])])
           | _ \<Rightarrow> (Inl TypeError, h))
      | _ \<Rightarrow> (Inl TypeError, h))"

text \<open>
  \<^verbatim>\<open>o => { o[k] = x; return o; }\<close> on a non-array object (the sample throws on
  anything else).
\<close>

definition setPropStep :: "string \<Rightarrow> jsval \<Rightarrow> step" where
  "setPropStep k x v h =
     (case v of
        VRef a \<Rightarrow>
          (case lookup h a of
             Some (Obj inherited props) \<Rightarrow>
               (Inr v, h[a := Obj inherited (AList.update k x props)])
           | _ \<Rightarrow> (Inl TypeError, h))
      | _ \<Rightarrow> (Inl TypeError, h))"


text \<open>
  \<^verbatim>\<open>v => { log.push(x); return v; }\<close>, where \<open>log\<close> is an array at \<open>a\<close> that the
  closure holds: a step whose call can be observed whatever it is given.
\<close>

definition recordStep :: "addr \<Rightarrow> jsval \<Rightarrow> step" where
  "recordStep a x v h =
     (case lookup h a of
        Some (Arr xs) \<Rightarrow> (Inr v, h[a := Arr (xs @ [x])])
      | _ \<Rightarrow> (Inl TypeError, h))"

text \<open>\<^verbatim>\<open>v => held\<close>, where \<open>held\<close> is an object at \<open>b\<close> that the closure holds.\<close>

definition heldStep :: "addr \<Rightarrow> step" where
  "heldStep b v h = (Inr (VRef b), h)"

text \<open>\<^verbatim>\<open>() => c\<close> and \<^verbatim>\<open>() => { throw e; }\<close>\<close>

definition returning :: "jsval \<Rightarrow> accessor" where
  "returning c h = (Inr c, h)"

definition throwing :: "exn \<Rightarrow> accessor" where
  "throwing e h = (Inl e, h)"

section \<open>Facts about the heap\<close>

lemma lookup_append_old: "lookup h a = Some ob \<Longrightarrow> lookup (h @ [ob']) a = Some ob"
  by (auto simp: lookup_def nth_append split: if_splits)

lemma lookup_append_new: "lookup (h @ [ob]) (length h) = Some ob"
  by (simp add: lookup_def)

lemma lookup_in_range: "lookup h a = Some ob \<Longrightarrow> a < length h"
  by (simp add: lookup_def split: if_splits)

lemma contents_shallowCopy: "contents (shallowCopy ob) = contents ob"
  by (cases ob) (simp_all add: contents_def shallowCopy_def)

lemma edges_alloc:
  "edges (h @ [ob]) = edges h \<union> {(length h, c) | c. VRef c \<in> set (contents ob)}"
  by (auto simp: edges_def nth_append less_Suc_eq split: if_splits)

text \<open>
  A path in the heap after an allocation is a path of the heap before it, or goes through
  the new object and continues from one of the references stored in it.
\<close>

lemma reach_alloc:
  assumes "(b, a) \<in> (edges (h @ [ob]))\<^sup>*"
  shows "(b, a) \<in> (edges h)\<^sup>* \<or>
         (\<exists>c. VRef c \<in> set (contents ob) \<and> (c, a) \<in> (edges h)\<^sup>*)"
  using assms
proof (induction rule: converse_rtrancl_induct)
  case base
  show ?case by simp
next
  case (step b b')
  from step.IH show ?case
  proof
    assume tail: "(b', a) \<in> (edges h)\<^sup>*"
    from step.hyps(1) have "(b, b') \<in> edges h \<or> VRef b' \<in> set (contents ob)"
      by (auto simp: edges_alloc)
    with tail show ?thesis by (auto intro: converse_rtrancl_into_rtrancl)
  next
    assume "\<exists>c. VRef c \<in> set (contents ob) \<and> (c, a) \<in> (edges h)\<^sup>*"
    then show ?thesis by blast
  qed
qed

lemma copy_does_not_reach:
  assumes "a < length h" and "\<forall>x \<in> set (contents ob). \<not> reaches h x a"
  shows "\<not> reaches (h @ [ob]) (VRef (length h)) a"
proof
  assume "reaches (h @ [ob]) (VRef (length h)) a"
  then have "(length h, a) \<in> (edges (h @ [ob]))\<^sup>*" by (simp add: reaches_def)
  from reach_alloc [OF this] show False
  proof
    assume "(length h, a) \<in> (edges h)\<^sup>*"
    then have "length h = a"
      by (cases rule: converse_rtranclE) (auto simp: edges_def)
    with assms(1) show False by simp
  next
    assume "\<exists>c. VRef c \<in> set (contents ob) \<and> (c, a) \<in> (edges h)\<^sup>*"
    then obtain c where "VRef c \<in> set (contents ob)" "(c, a) \<in> (edges h)\<^sup>*" by blast
    with assms(2) show False by (auto simp: reaches_def)
  qed
qed

lemma alloc_keeps_unreachable:
  assumes "\<not> reaches h (VRef r) a" and "\<forall>x \<in> set (contents ob). \<not> reaches h x a"
  shows "\<not> reaches (h @ [ob]) (VRef r) a"
proof
  assume "reaches (h @ [ob]) (VRef r) a"
  then have "(r, a) \<in> (edges (h @ [ob]))\<^sup>*" by (simp add: reaches_def)
  from reach_alloc [OF this] show False
  proof
    assume "(r, a) \<in> (edges h)\<^sup>*"
    with assms(1) show False by (simp add: reaches_def)
  next
    assume "\<exists>c. VRef c \<in> set (contents ob) \<and> (c, a) \<in> (edges h)\<^sup>*"
    then obtain c where "VRef c \<in> set (contents ob)" "(c, a) \<in> (edges h)\<^sup>*" by blast
    with assms(2) show False by (auto simp: reaches_def)
  qed
qed

lemma reaches_mono: "edges h' \<subseteq> edges h \<Longrightarrow> reaches h' v a \<Longrightarrow> reaches h v a"
  by (cases v) (auto simp: reaches_def dest: rtrancl_mono)

section \<open>Facts about pipe\<close>

lemma pipe_Arr:
  "lookup h a = Some (Arr xs) \<Longrightarrow>
   pipe (VRef a) fs h = reduce fs (VRef (length h)) (h @ [Arr xs])"
  by (simp add: pipe_def isArray_def slice0_def alloc_def)

lemma pipe_Obj_copied:
  "lookup h a = Some (Obj inh props) \<Longrightarrow> getConstructor h (VRef a) = Inr Object \<Longrightarrow>
   pipe (VRef a) fs h = reduce fs (VRef (length h)) (h @ [Obj Object props])"
  by (simp add: pipe_def isArray_def typeof_def spread_def alloc_def)

lemma pipe_copied:
  assumes "lookup h a = Some ob"
    and "isArray h (VRef a) \<or> getConstructor h (VRef a) = Inr Object"
  shows "pipe (VRef a) fs h = reduce fs (VRef (length h)) (h @ [shallowCopy ob])"
proof (cases ob)
  case (Arr xs)
  with assms(1) show ?thesis by (simp add: pipe_Arr shallowCopy_def)
next
  case (Obj inh props)
  with assms have "getConstructor h (VRef a) = Inr Object"
    by (simp add: isArray_def)
  with Obj assms(1) show ?thesis by (simp add: pipe_Obj_copied shallowCopy_def)
qed





text \<open>
  The fold keeps the object at \<open>a\<close> as it is, as long as every step is confined and the
  fold starts from a value from which \<open>a\<close> cannot be reached.
\<close>

lemma reduce_confined:
  "\<forall>f \<in> set fs. confined a R f \<Longrightarrow> \<not> reaches h v a \<Longrightarrow>
   \<forall>r \<in> R. \<not> reaches h (VRef r) a \<Longrightarrow> lookup h a = Some ob \<Longrightarrow>
   lookup (snd (reduce fs v h)) a = Some ob"
proof (induction fs arbitrary: v h)
  case Nil
  then show ?case by simp
next
  case (Cons f fs)
  from Cons.prems have cf: "confined a R f" by simp
  obtain r h' where fr: "f v h = (r, h')" by (cases "f v h")
  have pre: "lookup h a \<noteq> None \<and> \<not> reaches h v a \<and> (\<forall>r \<in> R. \<not> reaches h (VRef r) a)"
    using Cons.prems(2,3,4) by simp
  from cf pre have post:
    "lookup (snd (f v h)) a = lookup h a \<and>
     (\<forall>r \<in> R. \<not> reaches (snd (f v h)) (VRef r) a) \<and>
     (\<forall>v'. fst (f v h) = Inr v' \<longrightarrow> \<not> reaches (snd (f v h)) v' a)"
    unfolding confined_def by blast
  from post fr Cons.prems(4) have keep: "lookup h' a = Some ob"
    and roots: "\<forall>r \<in> R. \<not> reaches h' (VRef r) a"
    by simp_all
  show ?case
  proof (cases r)
    case (Inl e)
    with fr keep show ?thesis by simp
  next
    case (Inr v')
    with post fr have "\<not> reaches h' v' a" by simp
    with Cons.IH [of h' v'] Cons.prems(1) roots keep
    have "lookup (snd (reduce fs v' h')) a = Some ob" by simp
    with fr Inr show ?thesis by simp
  qed
qed

section \<open>Facts about the sample steps\<close>

lemma edges_push:
  assumes "lookup h c = Some (Arr xs)" and "\<forall>b. x \<noteq> VRef b"
  shows "edges (h[c := Arr (xs @ [x])]) \<subseteq> edges h"
  using assms
  by (auto simp: edges_def contents_def lookup_def nth_list_update split: if_splits)

lemma pushStep_confined:
  assumes "\<forall>b. x \<noteq> VRef b"
  shows "confined a R (pushStep x)"
  unfolding confined_def
proof (intro allI impI)
  fix v h
  assume pre: "lookup h a \<noteq> None \<and> \<not> reaches h v a \<and> (\<forall>r \<in> R. \<not> reaches h (VRef r) a)"
  show "lookup (snd (pushStep x v h)) a = lookup h a \<and>
        (\<forall>r \<in> R. \<not> reaches (snd (pushStep x v h)) (VRef r) a) \<and>
        (\<forall>v'. fst (pushStep x v h) = Inr v' \<longrightarrow> \<not> reaches (snd (pushStep x v h)) v' a)"
  proof (cases "\<exists>c xs. v = VRef c \<and> lookup h c = Some (Arr xs)")
    case True
    then obtain c xs where v: "v = VRef c" and c: "lookup h c = Some (Arr xs)" by blast
    from pre v have "c \<noteq> a" by (auto simp: reaches_def)
    with c v have r: "pushStep x v h = (Inr v, h[c := Arr (xs @ [x])])"
      and k: "lookup (h[c := Arr (xs @ [x])]) a = lookup h a"
      by (simp_all add: pushStep_def lookup_def)
    from edges_push [OF c assms] pre
    have "\<not> reaches (h[c := Arr (xs @ [x])]) v a"
      and "\<forall>r \<in> R. \<not> reaches (h[c := Arr (xs @ [x])]) (VRef r) a"
      by (blast dest: reaches_mono)+
    with r k show ?thesis by simp
  next
    case False
    then have "pushStep x v h = (Inl TypeError, h)"
      by (auto simp: pushStep_def split: jsval.splits option.splits obj.splits)
    with pre show ?thesis by simp
  qed
qed

lemma heldStep_confined: "confined a {b} (heldStep b)"
  by (simp add: confined_def heldStep_def)

text \<open>
  A closure that holds the caller's array is not confined: the copy made by \<^verbatim>\<open>pipe\<close>
  does not keep it from writing to the original.
\<close>

lemma step_holding_the_original:
  "lookup (snd (pipe (VRef 0) [recordStep 0 (VNum 4)] [Arr [VNum 1]])) 0
     = Some (Arr [VNum 1, VNum 4])"
  by (simp add: pipe_def isArray_def slice0_def alloc_def lookup_def recordStep_def)

section \<open>pipe: the order of the steps\<close>




section \<open>pipe: the copy\<close>

text \<open>
  Where the guard succeeds a copy is made. With no steps, \<^verbatim>\<open>pipe\<close> on an array returns
  a reference to a new array (an address that was not in use, hence another reference than
  the one given) with the same elements, and the given array is still in place. On an
  object whose property \<^verbatim>\<open>constructor\<close> evaluates to \<^verbatim>\<open>Object\<close>, it returns a
  reference to a new object with the same own properties.
\<close>

lemma pipe_no_steps_copies:
  "(lookup h a = Some (Arr xs) \<longrightarrow>
      pipe (VRef a) [] h = (Inr (VRef (length h)), h @ [Arr xs]) \<and> length h \<noteq> a \<and>
      lookup (h @ [Arr xs]) (length h) = Some (Arr xs) \<and>
      lookup (h @ [Arr xs]) a = Some (Arr xs)) \<and>
   (lookup h a = Some (Obj inherited props) \<and> getConstructor h (VRef a) = Inr Object \<longrightarrow>
      pipe (VRef a) [] h = (Inr (VRef (length h)), h @ [Obj Object props]) \<and> length h \<noteq> a \<and>
      lookup (h @ [Obj Object props]) (length h) = Some (Obj Object props) \<and>
      lookup (h @ [Obj Object props]) a = Some (Obj inherited props))"
  by (auto simp: pipe_Arr pipe_Obj_copied lookup_append_new lookup_append_old
           dest: lookup_in_range)

lemma pipe_no_steps_copies_examples:
  "pipe (VRef 0) [] [Arr [VNum 1, VNum 2, VNum 3]]
     = (Inr (VRef 1), [Arr [VNum 1, VNum 2, VNum 3], Arr [VNum 1, VNum 2, VNum 3]]) \<and>
   pipe (VRef 0) [] [Obj Object [(''name'', VStr ''Acme'')]]
     = (Inr (VRef 1),
        [Obj Object [(''name'', VStr ''Acme'')], Obj Object [(''name'', VStr ''Acme'')]])"
  by (simp add: pipe_def isArray_def typeof_def getConstructor_def slice0_def spread_def
        alloc_def lookup_def Object_def)

text \<open>
  C8 asks that \<^verbatim>\<open>pipe\<close> with no steps, on every plain key-value mapping, returns a new
  mapping with the same contents and not the reference it was given. On the object literal
  \<^verbatim>\<open>{ constructor: 'Acme' }\<close> the code does not: \<^verbatim>\<open>value.constructor\<close> is the string,
  not \<^verbatim>\<open>Object\<close>, no copy is made, and \<^verbatim>\<open>pipe\<close> returns the very reference it was
  given, in a heap that holds no second object.
\<close>

theorem pipe_own_constructor_same_reference:
  "pipe (VRef 0) [] [Obj Object [(''constructor'', VStr ''Acme'')]]
     = (Inr (VRef 0), [Obj Object [(''constructor'', VStr ''Acme'')]])"
  by (simp add: pipe_def isArray_def typeof_def getConstructor_def lookup_def Object_def)

text \<open>
  The same happens on a mapping with a null prototype (\<^verbatim>\<open>Object.create(null)\<close> with a
  key \<^verbatim>\<open>a\<close>), whose \<^verbatim>\<open>constructor\<close> is \<^verbatim>\<open>undefined\<close>.
\<close>

lemma pipe_null_prototype_same_reference:
  "pipe (VRef 0) [] [Obj VUndefined [(''a'', VNum 1)]]
     = (Inr (VRef 0), [Obj VUndefined [(''a'', VNum 1)]])"
  by (simp add: pipe_def isArray_def typeof_def getConstructor_def lookup_def Object_def)

section \<open>pipe: the caller's original\<close>

text \<open>
  Where the guard succeeds the caller's original is kept. Let the initial value be a
  reference to an array, or to an object whose \<^verbatim>\<open>constructor\<close> is \<^verbatim>\<open>Object\<close>, that
  can be reached neither from its own contents nor from the objects \<open>R\<close> that the steps
  hold, and let every step be confined (it is free to change the argument it is handed).
  Then the steps run on a new reference to a shallow copy, and when \<^verbatim>\<open>pipe\<close> ends, by a
  return or by the exception of a step, the caller's object holds exactly the elements or
  key-value pairs it held before.
\<close>

lemma pipe_leaves_copied_original_unchanged:
  assumes "lookup h a = Some ob"
    and "isArray h (VRef a) \<or> getConstructor h (VRef a) = Inr Object"
    and "\<forall>x \<in> set (contents ob). \<not> reaches h x a"
    and "\<forall>r \<in> R. \<not> reaches h (VRef r) a"
    and "\<forall>f \<in> set mapFuncs. confined a R f"
  shows "pipe (VRef a) mapFuncs h = reduce mapFuncs (VRef (length h)) (h @ [shallowCopy ob]) \<and>
         length h \<noteq> a \<and>
         lookup (snd (pipe (VRef a) mapFuncs h)) a = Some ob"
proof -
  from assms(1) have lt: "a < length h" by (rule lookup_in_range)
  have eq: "pipe (VRef a) mapFuncs h = reduce mapFuncs (VRef (length h)) (h @ [shallowCopy ob])"
    using assms(1,2) by (rule pipe_copied)
  have old: "lookup (h @ [shallowCopy ob]) a = Some ob"
    using assms(1) by (rule lookup_append_old)
  from assms(3) have inner: "\<forall>x \<in> set (contents (shallowCopy ob)). \<not> reaches h x a"
    by (simp add: contents_shallowCopy)
  with lt have fresh: "\<not> reaches (h @ [shallowCopy ob]) (VRef (length h)) a"
    by (rule copy_does_not_reach)
  have roots: "\<forall>r \<in> R. \<not> reaches (h @ [shallowCopy ob]) (VRef r) a"
  proof
    fix r
    assume "r \<in> R"
    with assms(4) have "\<not> reaches h (VRef r) a" by simp
    from this inner show "\<not> reaches (h @ [shallowCopy ob]) (VRef r) a"
      by (rule alloc_keeps_unreachable)
  qed
  from reduce_confined [OF assms(5) fresh roots old] eq lt show ?thesis by simp
qed

lemma pipe_leaves_copied_original_unchanged_example:
  "lookup (snd (pipe (VRef 0) [pushStep (VNum 4), heldStep 1]
                  [Arr [VNum 1, VNum 2, VNum 3], Obj Object []])) 0
     = Some (Arr [VNum 1, VNum 2, VNum 3])"
proof -
  let ?h = "[Arr [VNum 1, VNum 2, VNum 3], Obj Object []]"
  have h1: "lookup ?h 0 = Some (Arr [VNum 1, VNum 2, VNum 3])"
    by (simp add: lookup_def)
  have h2: "isArray ?h (VRef 0) \<or> getConstructor ?h (VRef 0) = Inr Object"
    by (simp add: isArray_def lookup_def)
  have h3: "\<forall>x \<in> set (contents (Arr [VNum 1, VNum 2, VNum 3])). \<not> reaches ?h x 0"
    by (simp add: contents_def reaches_def)
  have "(1, 0) \<notin> (edges ?h)\<^sup>*"
    by (auto elim: converse_rtranclE simp: edges_def contents_def less_Suc_eq)
  then have h4: "\<forall>r \<in> {1}. \<not> reaches ?h (VRef r) 0"
    by (simp add: reaches_def)
  have h5: "\<forall>f \<in> set [pushStep (VNum 4), heldStep 1]. confined 0 {1} f"
    by (simp add: pushStep_confined heldStep_confined)
  from pipe_leaves_copied_original_unchanged [OF h1 h2 h3 h4 h5] show ?thesis by blast
qed

text \<open>
  C1 asks that \<^verbatim>\<open>pipe\<close> leaves the caller's original unchanged for every plain key-value
  mapping and for steps that change the argument they receive. On the object literal
  \<^verbatim>\<open>{ constructor: 'Acme', year: 1990 }\<close> with the step
  \<^verbatim>\<open>o => { o.year = 2000; return o; }\<close> the code does not: \<^verbatim>\<open>value.constructor\<close> is the
  string, not \<^verbatim>\<open>Object\<close>, no copy is made, the step is handed the caller's object, and
  after the call the pair for \<^verbatim>\<open>year\<close> in that object is 2000.
\<close>

theorem pipe_own_constructor_original_changed:
  "lookup [Obj Object [(''constructor'', VStr ''Acme''), (''year'', VNum 1990)]] 0
     = Some (Obj Object [(''constructor'', VStr ''Acme''), (''year'', VNum 1990)]) \<and>
   pipe (VRef 0) [setPropStep ''year'' (VNum 2000)]
        [Obj Object [(''constructor'', VStr ''Acme''), (''year'', VNum 1990)]]
     = (Inr (VRef 0), [Obj Object [(''constructor'', VStr ''Acme''), (''year'', VNum 2000)]]) \<and>
   lookup (snd (pipe (VRef 0) [setPropStep ''year'' (VNum 2000)]
                  [Obj Object [(''constructor'', VStr ''Acme''), (''year'', VNum 1990)]])) 0
     = Some (Obj Object [(''constructor'', VStr ''Acme''), (''year'', VNum 2000)])"
  by (simp add: pipe_def isArray_def typeof_def getConstructor_def lookup_def
        setPropStep_def Object_def)

section \<open>pipe on null\<close>

text \<open>
  C10. \<^verbatim>\<open>pipe(null, ...)\<close> throws a TypeError, whatever the steps and also with none:
  \<^verbatim>\<open>typeof null\<close> is \<^verbatim>\<open>'object'\<close>, so the guard reads \<^verbatim>\<open>null.constructor\<close>. No step is
  called: the heap is the one \<^verbatim>\<open>pipe\<close> was called in.
\<close>

theorem pipe_null_TypeError: "pipe VNull mapFuncs h = (Inl TypeError, h)"
  by (simp add: pipe_def isArray_def typeof_def getConstructor_def)

theorem pipe_null_TypeError_witness:
  "pipe VNull [] [] = (Inl TypeError, []) \<and>
   pipe VNull [recordStep 0 (VNum 1)] [Arr []] = (Inl TypeError, [Arr []])"
  using pipe_null_TypeError [of "[]" "[]"]
        pipe_null_TypeError [of "[recordStep 0 (VNum 1)]" "[Arr []]"]
  by simp

section \<open>pipeSafely\<close>

text \<open>
  C3. On \<^verbatim>\<open>null\<close> and on \<^verbatim>\<open>undefined\<close>, \<^verbatim>\<open>pipeSafely\<close> returns \<^verbatim>\<open>undefined\<close> and
  calls no step: whatever the steps are, the heap after the call is the heap before it.
\<close>

theorem pipeSafely_absent:
  "value = VNull \<or> value = VUndefined \<Longrightarrow> pipeSafely value mapFuncs h = (Inr VUndefined, h)"
  by (auto simp: pipeSafely_def notEmpty_def)

theorem pipeSafely_absent_witness:
  "pipeSafely VNull [recordStep 0 (VNum 1)] [Arr []] = (Inr VUndefined, [Arr []]) \<and>
   pipeSafely VUndefined [recordStep 0 (VNum 1)] [Arr []] = (Inr VUndefined, [Arr []]) \<and>
   recordStep 0 (VNum 1) VUndefined [Arr []] = (Inr VUndefined, [Arr [VNum 1]])"
  using pipeSafely_absent [of VNull "[recordStep 0 (VNum 1)]" "[Arr []]"]
        pipeSafely_absent [of VUndefined "[recordStep 0 (VNum 1)]" "[Arr []]"]
  by (simp add: recordStep_def lookup_def)

text \<open>
  C4. On a value that is neither \<^verbatim>\<open>null\<close> nor \<^verbatim>\<open>undefined\<close>, \<^verbatim>\<open>pipeSafely\<close> is
  \<^verbatim>\<open>pipe\<close>: the same result or the same exception, and the same heap.
\<close>

theorem pipeSafely_present:
  "value \<noteq> VNull \<Longrightarrow> value \<noteq> VUndefined \<Longrightarrow>
   pipeSafely value mapFuncs h = pipe value mapFuncs h"
  by (simp add: pipeSafely_def notEmpty_def)

theorem pipeSafely_present_witness:
  "pipeSafely (VRef 0) [pushStep (VNum 4)] [Arr [VNum 1]]
     = pipe (VRef 0) [pushStep (VNum 4)] [Arr [VNum 1]] \<and>
   pipe (VRef 0) [pushStep (VNum 4)] [Arr [VNum 1]]
     = (Inr (VRef 1), [Arr [VNum 1], Arr [VNum 1, VNum 4]])"
  using pipeSafely_present [of "VRef 0" "[pushStep (VNum 4)]" "[Arr [VNum 1]]"]
  by (simp add: pipe_def isArray_def slice0_def alloc_def lookup_def pushStep_def)

section \<open>getSafely\<close>

text \<open>
  C2. \<^verbatim>\<open>getSafely\<close> never raises: whatever the accessor does, \<^verbatim>\<open>getSafely\<close> returns
  a value. When the accessor returns \<open>v\<close>, that value is \<open>v\<close>; when the accessor
  throws, the exception is dropped and the value is \<^verbatim>\<open>undefined\<close>. The heap is the one
  the accessor left.
\<close>

theorem getSafely_never_raises:
  "(\<exists>v h'. getSafely getCb h = (Inr v, h')) \<and>
   (\<forall>v h'. getCb h = (Inr v, h') \<longrightarrow> getSafely getCb h = (Inr v, h')) \<and>
   (\<forall>e h'. getCb h = (Inl e, h') \<longrightarrow> getSafely getCb h = (Inr VUndefined, h'))"
  by (cases "getCb h") (auto simp: getSafely_def split: sum.splits)

theorem getSafely_never_raises_witness:
  "getSafely (returning (VNum 5)) [] = (Inr (VNum 5), []) \<and>
   getSafely (throwing (Error ''boom'')) [] = (Inr VUndefined, [])"
  using getSafely_never_raises [of "returning (VNum 5)" "[]"]
        getSafely_never_raises [of "throwing (Error ''boom'')" "[]"]
  by (simp add: returning_def throwing_def)

section \<open>getOrThrow\<close>

text \<open>
  C6, with \<^verbatim>\<open>undefined\<close> as the only absent result. \<^verbatim>\<open>getOrThrow\<close> throws if and only
  if \<^verbatim>\<open>getSafely\<close> on the accessor yields \<^verbatim>\<open>undefined\<close>, which is the case exactly
  when the accessor threw or returned \<^verbatim>\<open>undefined\<close>; what it throws is the \<^verbatim>\<open>Error\<close>
  with the fixed message. Any other value of the accessor, \<^verbatim>\<open>null\<close> included, is
  returned.
\<close>

theorem getOrThrow_raises_iff_undefined:
  "((\<exists>e. fst (getOrThrow getCb h) = Inl e) \<longleftrightarrow> fst (getSafely getCb h) = Inr VUndefined) \<and>
   (fst (getSafely getCb h) = Inr VUndefined \<longleftrightarrow>
      (\<exists>e. fst (getCb h) = Inl e) \<or> fst (getCb h) = Inr VUndefined) \<and>
   (\<forall>e. fst (getOrThrow getCb h) = Inl e \<longrightarrow> e = Error ''getOrThrow - undefined value!'') \<and>
   (\<forall>v. fst (getCb h) = Inr v \<and> v \<noteq> VUndefined \<longrightarrow> fst (getOrThrow getCb h) = Inr v) \<and>
   snd (getOrThrow getCb h) = snd (getCb h)"
  by (cases "getCb h") (auto simp: getOrThrow_def getSafely_def split: sum.splits)

theorem getOrThrow_raises_iff_undefined_witness:
  "getOrThrow (returning VUndefined) [] = (Inl (Error ''getOrThrow - undefined value!''), []) \<and>
   getOrThrow (throwing (Thrown (VNum 1))) [] = (Inl (Error ''getOrThrow - undefined value!''), []) \<and>
   getOrThrow (returning (VNum 5)) [] = (Inr (VNum 5), [])"
proof -
  have "fst (getOrThrow (returning VUndefined) []) = Inl (Error ''getOrThrow - undefined value!'')"
    using getOrThrow_raises_iff_undefined [of "returning VUndefined" "[]"]
    by (auto simp: returning_def)
  moreover have "fst (getOrThrow (throwing (Thrown (VNum 1))) [])
      = Inl (Error ''getOrThrow - undefined value!'')"
    using getOrThrow_raises_iff_undefined [of "throwing (Thrown (VNum 1))" "[]"]
    by (auto simp: throwing_def)
  moreover have "fst (getOrThrow (returning (VNum 5)) []) = Inr (VNum 5)"
    using getOrThrow_raises_iff_undefined [of "returning (VNum 5)" "[]"]
    by (auto simp: returning_def)
  moreover have "snd (getOrThrow (returning VUndefined) []) = []"
    "snd (getOrThrow (throwing (Thrown (VNum 1))) []) = []"
    "snd (getOrThrow (returning (VNum 5)) []) = []"
    using getOrThrow_raises_iff_undefined [of "returning VUndefined" "[]"]
      getOrThrow_raises_iff_undefined [of "throwing (Thrown (VNum 1))" "[]"]
      getOrThrow_raises_iff_undefined [of "returning (VNum 5)" "[]"]
    by (simp_all add: returning_def throwing_def)
  ultimately show ?thesis by (simp add: prod_eq_iff)
qed

text \<open>
  For an accessor that returns \<^verbatim>\<open>null\<close>, \<^verbatim>\<open>getSafely\<close> yields \<^verbatim>\<open>null\<close>, which
  \<^verbatim>\<open>notEmpty\<close> classifies as absent, and \<^verbatim>\<open>getOrThrow\<close> does not throw.
\<close>

theorem getOrThrow_null_counterexample:
  "getSafely (returning VNull) [] = (Inr VNull, []) \<and> \<not> notEmpty VNull \<and>
   getOrThrow (returning VNull) [] = (Inr VNull, [])"
  by (simp add: getOrThrow_def getSafely_def returning_def notEmpty_def)

section \<open>getOrElse\<close>

text \<open>
  C7, with \<^verbatim>\<open>undefined\<close> as the only absent result. \<^verbatim>\<open>getOrElse\<close> never raises. When
  \<^verbatim>\<open>getSafely\<close> on the accessor yields \<^verbatim>\<open>undefined\<close> (the accessor threw or returned
  \<^verbatim>\<open>undefined\<close>) it returns the default; it returns any other value of the accessor,
  \<^verbatim>\<open>null\<close> included. With a default other than \<^verbatim>\<open>undefined\<close> it never returns
  \<^verbatim>\<open>undefined\<close>.
\<close>

theorem getOrElse_default_iff_undefined:
  "(\<exists>v. fst (getOrElse getCb defaultValue h) = Inr v) \<and>
   (fst (getSafely getCb h) = Inr VUndefined \<longrightarrow>
      fst (getOrElse getCb defaultValue h) = Inr defaultValue) \<and>
   (\<forall>v. fst (getSafely getCb h) = Inr v \<and> v \<noteq> VUndefined \<longrightarrow>
        fst (getOrElse getCb defaultValue h) = Inr v) \<and>
   (defaultValue \<noteq> VUndefined \<longrightarrow> fst (getOrElse getCb defaultValue h) \<noteq> Inr VUndefined) \<and>
   snd (getOrElse getCb defaultValue h) = snd (getSafely getCb h)"
  by (cases "getCb h") (auto simp: getOrElse_def getSafely_def split: sum.splits)

theorem getOrElse_default_iff_undefined_witness:
  "getOrElse (returning VUndefined) (VNum 7) [] = (Inr (VNum 7), []) \<and>
   getOrElse (throwing (Thrown (VNum 1))) (VNum 7) [] = (Inr (VNum 7), []) \<and>
   getOrElse (returning (VNum 5)) (VNum 7) [] = (Inr (VNum 5), [])"
proof -
  have s: "getSafely (returning VUndefined) [] = (Inr VUndefined, [])"
    "getSafely (throwing (Thrown (VNum 1))) [] = (Inr VUndefined, [])"
    "getSafely (returning (VNum 5)) [] = (Inr (VNum 5), [])"
    by (simp_all add: getSafely_def returning_def throwing_def)
  show ?thesis
    using getOrElse_default_iff_undefined [of "returning VUndefined" "VNum 7" "[]"]
      getOrElse_default_iff_undefined [of "throwing (Thrown (VNum 1))" "VNum 7" "[]"]
      getOrElse_default_iff_undefined [of "returning (VNum 5)" "VNum 7" "[]"]
    by (simp add: s prod_eq_iff)
qed

text \<open>
  For an accessor that returns \<^verbatim>\<open>null\<close>, \<^verbatim>\<open>getOrElse\<close> with the default 7 returns
  \<^verbatim>\<open>null\<close>, which \<^verbatim>\<open>notEmpty\<close> classifies as absent.
\<close>

theorem getOrElse_null_counterexample:
  "getOrElse (returning VNull) (VNum 7) [] = (Inr VNull, []) \<and> \<not> notEmpty VNull"
  by (simp add: getOrElse_def getSafely_def returning_def notEmpty_def)

section \<open>null in the safe accessors\<close>

text \<open>
  C9. The three accessors test \<^verbatim>\<open>result === undefined\<close> only. When the accessor returns
  \<^verbatim>\<open>null\<close>, \<^verbatim>\<open>getSafely\<close> returns \<^verbatim>\<open>null\<close>, \<^verbatim>\<open>getOrThrow\<close> returns \<^verbatim>\<open>null\<close>
  and does not throw, and \<^verbatim>\<open>getOrElse\<close> returns \<^verbatim>\<open>null\<close> and not the default.
\<close>

theorem accessors_keep_null:
  "getCb h = (Inr VNull, h') \<Longrightarrow>
   getSafely getCb h = (Inr VNull, h') \<and>
   getOrThrow getCb h = (Inr VNull, h') \<and>
   getOrElse getCb defaultValue h = (Inr VNull, h')"
  by (simp add: getSafely_def getOrThrow_def getOrElse_def)

theorem accessors_keep_null_witness:
  "getSafely (returning VNull) [] = (Inr VNull, []) \<and>
   getOrThrow (returning VNull) [] = (Inr VNull, []) \<and>
   getOrElse (returning VNull) (VNum 7) [] = (Inr VNull, [])"
  using accessors_keep_null [of "returning VNull" "[]" "[]" "VNum 7"]
  by (simp add: returning_def)

end
